theory Spec2Isabelle
  imports Complex_Main "HOL-Library.Word"
begin

section \<open>Data model of electron-maintain-capacity.cpp\<close>

type_synonym u32 = "32 word"

text \<open>
  A C \<open>float\<close> as far as the firmware uses it: it is stored, and it is compared with
  \<open><\<close>. Every IEEE value is a finite number, an infinity or a NaN; the finite values are
  taken from the reals, a superset of the representable ones.
\<close>

datatype cfloat = Finite real | PosInf | NegInf | NaN

text \<open>The C comparison \<open>a < b\<close> on floats: false as soon as one side is a NaN.\<close>

fun float_less :: "cfloat \<Rightarrow> cfloat \<Rightarrow> bool" where
  "float_less NaN b = False"
| "float_less a NaN = False"
| "float_less (Finite x) (Finite y) = (x < y)"
| "float_less (Finite x) PosInf = True"
| "float_less (Finite x) NegInf = False"
| "float_less PosInf b = False"
| "float_less NegInf NegInf = False"
| "float_less NegInf b = True"

text \<open>
  The global variables of the sketch: the two \<open>retained\<close> ones (lines 40-41), which
  survive a sleep, and \<open>lastBlink\<close> (line 47), which does not.
\<close>

record prog_state =
  last_battery_capacity :: cfloat
  low_batt_sleep_attempts :: u32
  lastBlink :: u32

definition LOW_BATT_CAPACITY :: cfloat where
  "LOW_BATT_CAPACITY = Finite 20"

text \<open>
  What the platform answers during one call of the qualification routine:
  \<open>soc\<close> is the value \<open>FuelGauge().getSoC()\<close> returns to \<open>battery_lower_than\<close>,
  \<open>connected\<close> is \<open>Particle.connected()\<close>, and \<open>sleep_returns\<close> says whether
  \<open>System.sleep(SLEEP_MODE_SOFTPOWEROFF, t)\<close> comes back to its caller (the platform is
  not part of the sketch: a soft power-off ends the run and the device restarts on wake,
  so \<open>sleep_returns = False\<close> is the documented behaviour; the other value keeps line 127
  of the source reachable after line 125 in the model, as it is in the text of the code).
\<close>

record hw =
  soc :: cfloat
  connected :: bool
  sleep_returns :: bool

text \<open>
  Text sent to the cloud or the serial port is kept as the list of the pieces the source
  concatenates. \<open>Dec n\<close> is \<open>String(n)\<close> of an integer; \<open>SoC_now\<close>, \<open>VCell_now\<close> and
  \<open>Version_now\<close> stand for the gauge value read and formatted at that moment
  (\<open>String(FuelGauge().getSoC())\<close>, \<open>String(FuelGauge().getVCell())\<close>,
  \<open>FuelGauge().getVersion()\<close> under \<open>%d\<close>): these reads only feed messages.
\<close>

datatype piece = Str string | Dec nat | SoC_now | VCell_now | Version_now

type_synonym message = "piece list"

datatype effect =
    Particle_publish message message
  | Serial_println message
  | Delay nat
  | FuelGauge_quickStart
  | System_sleep u32

text \<open>
  A call either returns to its caller or ends the run inside \<open>System.sleep\<close>; both carry
  the globals as they are at that point and the effects performed, in order.
\<close>

datatype outcome =
    is_Returned: Returned (final: prog_state) (trace: "effect list")
  | is_Suspended: Suspended (final: prog_state) (trace: "effect list")

section \<open>The backoff calculator (lines 59-65)\<close>

text \<open>
  Line 63, \<open>min(7u, attempt_num/3)\<close>: unsigned division and minimum.
\<close>

definition backoff_exponent :: "u32 \<Rightarrow> u32" where
  "backoff_exponent attempt_num = min 7 (attempt_num div 3)"

text \<open>
  Line 64 computes \<open>1000*(1<<exponent)\<close> in \<open>int\<close> and converts to \<open>uint32_t\<close>; the
  exponent is at most 7, so the shift and the product stay far below \<open>2^31\<close> and the
  32-bit word operations give the same bits.
\<close>

definition sleep_backoff :: "u32 \<Rightarrow> u32" where
  "sleep_backoff attempt_num =
     (if attempt_num = 0 then 0
      else 1000 * push_bit (unat (backoff_exponent attempt_num)) 1)"

section \<open>The qualification routine (lines 71-128)\<close>

definition battery_lower_than :: "hw \<Rightarrow> cfloat \<Rightarrow> bool" where
  "battery_lower_than h capacity = float_less (soc h) capacity"

definition reset_battery_capacity :: "effect list" where
  "reset_battery_capacity = [FuelGauge_quickStart, Delay 200]"

definition stats_string :: message where
  "stats_string = [SoC_now, Str ''(%),'', VCell_now, Str ''(V)'']"

definition publish_pmic_stats_event :: "message \<Rightarrow> effect list" where
  "publish_pmic_stats_event eventname =
     [Particle_publish eventname stats_string,
      Serial_println (eventname @ [Str '' ''] @ stats_string),
      Delay 100]"

text \<open>
  Line 115: the pre-increment is stored in the retained counter before anything else
  happens; \<open>144 * sleep_backoff(..) / 100\<close> is unsigned 32-bit arithmetic, the product
  first. Lines 116-119 run only when connected. Lines 121-125 follow in both cases. Line
  127 is reached when the battery is not low, or when \<open>System.sleep\<close> returns.
\<close>

definition sleep_time_of :: "u32 \<Rightarrow> u32" where
  "sleep_time_of attempts = 144 * sleep_backoff attempts div 100"

abbreviation low_battery :: "hw \<Rightarrow> bool" where
  "low_battery h \<equiv> battery_lower_than h LOW_BATT_CAPACITY"

definition qualify_battery_and_hibernate :: "prog_state \<Rightarrow> hw \<Rightarrow> outcome" where
  "qualify_battery_and_hibernate st h =
     (if low_battery h then
        let st1 = st\<lparr>low_batt_sleep_attempts := low_batt_sleep_attempts st + 1\<rparr>;
            sleep_time = sleep_time_of (low_batt_sleep_attempts st1);
            t1 = (if connected h
                  then publish_pmic_stats_event [Str ''SLEEP '', Dec (unat sleep_time)]
                       @ [Delay 5000]
                  else []);
            t2 = t1 @ [Serial_println ([Str ''SLEEP '', Dec (unat sleep_time), Str '' '']
                                        @ stats_string),
                       Delay 100,
                       System_sleep sleep_time]
        in if sleep_returns h
           then Returned (st1\<lparr>low_batt_sleep_attempts := 0\<rparr>) t2
           else Suspended st1 t2
      else Returned (st\<lparr>low_batt_sleep_attempts := 0\<rparr>) [])"

text \<open>
  What a trace asked of the sleep primitive and of the cloud: the durations handed to
  \<open>System.sleep\<close>, and the events handed to \<open>Particle.publish\<close>, in order.
\<close>

fun sleep_requests :: "effect list \<Rightarrow> u32 list" where
  "sleep_requests [] = []"
| "sleep_requests (System_sleep d # t) = d # sleep_requests t"
| "sleep_requests (e # t) = sleep_requests t"

fun publishes :: "effect list \<Rightarrow> (message \<times> message) list" where
  "publishes [] = []"
| "publishes (Particle_publish name payload # t) = (name, payload) # publishes t"
| "publishes (e # t) = publishes t"

text \<open>
  A run of qualification calls, one platform answer per call. After a call that ended in
  the soft power-off the device restarts: the retained variables keep their values and
  \<open>lastBlink\<close> is initialised again (line 47).
\<close>

definition wake :: "prog_state \<Rightarrow> prog_state" where
  "wake st = st\<lparr>lastBlink := 0\<rparr>"

fun qualify_calls :: "prog_state \<Rightarrow> hw list \<Rightarrow> prog_state" where
  "qualify_calls st [] = st"
| "qualify_calls st (h # hs) =
     (case qualify_battery_and_hibernate st h of
        Returned st' t \<Rightarrow> qualify_calls st' hs
      | Suspended st' t \<Rightarrow> qualify_calls (wake st') hs)"

section \<open>The serial console (lines 144-188)\<close>

definition crlf :: string where
  "crlf = [CHR 0x0D, CHR 0x0A]"

definition showHelp :: "effect list" where
  "showHelp =
     [Serial_println
        [Str (crlf @ ''Press a key to run a command:''
              @ crlf @ ''[q] run Fuel Gauge [q]uickStart and read SoC and BattV''
              @ crlf @ ''[b] run qualify_[b]attery_and_hibernate''
              @ crlf @ ''[v] get Fuel Gauge hardware [v]ersion''
              @ crlf @ ''[h] show this [h]elp menu'' @ crlf)]]"

text \<open>
  \<open>processSerial\<close> takes the bytes waiting in the receive buffer of \<open>Serial1\<close> and
  returns what is left of them. With nothing waiting it does nothing. Otherwise the
  first byte selects the branch and line 185 empties the buffer, unless the \<open>b\<close>
  command ended the run inside \<open>System.sleep\<close>.
\<close>

definition processSerial :: "prog_state \<Rightarrow> hw \<Rightarrow> string \<Rightarrow> outcome \<times> string" where
  "processSerial st h input =
     (case input of
        [] \<Rightarrow> (Returned st [], [])
      | c # rest \<Rightarrow>
          if c = CHR ''q'' then
            (Returned st (reset_battery_capacity
               @ [Serial_println (Str ''Quickstart and Battery stats: '' # stats_string)]), [])
          else if c = CHR ''Q'' then
            (Returned st [Serial_println (Str ''Battery stats: '' # stats_string)], [])
          else if c = CHR ''b'' then
            (case qualify_battery_and_hibernate st h of
               Returned st' t \<Rightarrow>
                 (Returned st'
                    (Serial_println [Str ''Running qualify_battery_and_hibernate()''] # t), [])
             | Suspended st' t \<Rightarrow>
                 (Suspended st'
                    (Serial_println [Str ''Running qualify_battery_and_hibernate()''] # t), rest))
          else if c = CHR ''v'' then
            (Returned st
               [Serial_println [Str ''Fuel Gauge hardware version: '', Version_now]], [])
          else if c = CHR ''h'' then
            (Returned st showHelp, [])
          else
            (Returned st [Serial_println [Str ''Bad command! Press [h] for help menu.'']], []))"

section \<open>The scaling formula as the specification words it\<close>

text \<open>
  The specification describes a calculator \<open>sleepBackoffSeconds\<close> that returns
  \<open>2^min(7, attemptNumber / 3)\<close> (0 for attempt 0), a scaling factor of 144, and the
  duration \<open>scalingFactor * sleepBackoffSeconds(n) * 1000 / 100\<close>. The two definitions
  follow those words, over the naturals; the formula is compared below with what the
  code hands to \<open>System.sleep\<close>.
\<close>

definition scalingFactor :: nat where
  "scalingFactor = 144"

definition sleepBackoffSeconds :: "nat \<Rightarrow> nat" where
  "sleepBackoffSeconds attemptNumber =
     (if attemptNumber = 0 then 0 else 2 ^ min 7 (attemptNumber div 3))"

section \<open>Reading the word operations as numbers\<close>

lemma unat_backoff_exponent:
  "unat (backoff_exponent n) = min 7 (unat n div 3)"
  by (simp add: backoff_exponent_def min_def word_le_nat_alt unat_div)

lemma pow_le_128: "k \<le> 7 \<Longrightarrow> (2::nat) ^ k \<le> 128"
  using power_increasing [of k 7 "2::nat"] by simp

lemma scaled_shift:
  assumes "k \<le> 7"
  shows "unat (1000 * push_bit k (1::u32)) = 1000 * 2 ^ k"
proof -
  have w: "1000 * push_bit k (1::u32) = of_nat (1000 * 2 ^ k)"
    by (simp add: push_bit_eq_mult)
  have "(1000::nat) * 2 ^ k \<le> 1000 * 128"
    using pow_le_128 [OF assms] by simp
  then have "(1000::nat) * 2 ^ k < 2 ^ 32" by simp
  then have "(1000 * 2 ^ k) mod 2 ^ LENGTH(32) = (1000::nat) * 2 ^ k" by simp
  then show ?thesis by (simp only: w unat_of_nat)
qed

lemma unat_sleep_backoff:
  "unat (sleep_backoff n) = (if n = 0 then 0 else 1000 * 2 ^ min 7 (unat n div 3))"
proof (cases "n = 0")
  case True
  then show ?thesis by (simp add: sleep_backoff_def)
next
  case False
  have "unat (1000 * push_bit (min 7 (unat n div 3)) (1::u32))
          = 1000 * 2 ^ min 7 (unat n div 3)"
    by (rule scaled_shift) simp
  with False show ?thesis
    by (simp only: sleep_backoff_def unat_backoff_exponent if_False)
qed

lemma unat_sleep_backoff_le: "unat (sleep_backoff n) \<le> 128000"
proof -
  have "(2::nat) ^ min 7 (unat n div 3) \<le> 128" by (rule pow_le_128) simp
  then show ?thesis by (simp add: unat_sleep_backoff)
qed

lemma unat_product: "unat (144 * sleep_backoff n) = 144 * unat (sleep_backoff n)"
proof -
  have "144 * unat (sleep_backoff n) < 2 ^ 32"
    using unat_sleep_backoff_le [of n] by simp
  then show ?thesis by (simp add: unat_word_ariths)
qed

lemma unat_sleep_time_of:
  "unat (sleep_time_of n) = (if n = 0 then 0 else 1440 * 2 ^ min 7 (unat n div 3))"
  by (simp add: sleep_time_of_def unat_div unat_product unat_sleep_backoff)

lemma exponent_series:
  "map (\<lambda>a. unat (backoff_exponent (of_nat a))) [1..<22]
     = [0, 0, 1, 1, 1, 2, 2, 2, 3, 3, 3, 4, 4, 4, 5, 5, 5, 6, 6, 6, 7]"
  by (simp add: upt_rec unat_backoff_exponent)

lemma exponent_saturates:
  assumes "21 \<le> unat n"
  shows "unat (backoff_exponent n) = 7"
proof -
  from assms have "7 \<le> unat n div 3" by simp
  then show ?thesis by (simp add: unat_backoff_exponent)
qed

lemma sleep_backoff_mono:
  assumes "m \<le> n"
  shows "sleep_backoff m \<le> sleep_backoff n"
proof (cases "m = 0")
  case True
  then show ?thesis by (simp add: sleep_backoff_def)
next
  case False
  from assms have le: "unat m \<le> unat n" by (simp add: word_le_nat_alt)
  from False have "0 < unat m" by (simp add: unat_gt_0)
  with le have "0 < unat n" by simp
  then have n0: "n \<noteq> 0" by (simp add: unat_gt_0)
  from le have "unat m div 3 \<le> unat n div 3" by (rule div_le_mono)
  then have "min 7 (unat m div 3) \<le> min 7 (unat n div 3)" by simp
  then have "(2::nat) ^ min 7 (unat m div 3) \<le> 2 ^ min 7 (unat n div 3)"
    by (rule power_increasing) simp
  with False n0 show ?thesis
    by (simp add: word_le_nat_alt unat_sleep_backoff)
qed

lemma product_divisible: "100 dvd unat (144 * sleep_backoff n)"
proof -
  have "unat (144 * sleep_backoff n)
          = 100 * (if n = 0 then 0 else 1440 * 2 ^ min 7 (unat n div 3))"
    by (simp add: unat_product unat_sleep_backoff)
  then show ?thesis by (simp only: dvd_triv_left)
qed

lemma unat_incremented:
  assumes "unat (c :: u32) < 4294967295"
  shows "unat (c + 1) = unat c + 1"
proof -
  have "unat c + unat (1 :: u32) < 2 ^ LENGTH(32)" using assms by simp
  then have "unat (c + 1) = unat c + unat (1 :: u32)" by (simp only: unat_add_lem)
  then show ?thesis by simp
qed

lemma sleep_time_range:
  assumes "n \<noteq> 0"
  shows "1440 \<le> unat (sleep_time_of n) \<and> unat (sleep_time_of n) \<le> 184320
       \<and> (unat (sleep_time_of n) = 184320) = (21 \<le> unat n)
       \<and> (unat (sleep_time_of n) = 1440) = (unat n < 3)"
proof -
  let ?e = "min 7 (unat n div 3)"
  have v: "unat (sleep_time_of n) = 1440 * 2 ^ ?e"
    using assms by (simp add: unat_sleep_time_of)
  have lo: "(1::nat) \<le> 2 ^ ?e" by simp
  have hi: "(2::nat) ^ ?e \<le> 128" by (rule pow_le_128) simp
  have top: "((2::nat) ^ ?e = 2 ^ 7) = (?e = 7)"
    by (rule power_inject_exp) simp
  have bot: "((2::nat) ^ ?e = 2 ^ 0) = (?e = 0)"
    by (rule power_inject_exp) simp
  have e7: "(?e = 7) = (21 \<le> unat n)" by auto
  have e0: "(?e = 0) = (unat n < 3)" by auto
  have "(1440 * (2::nat) ^ ?e = 184320) = ((2::nat) ^ ?e = 2 ^ 7)" by auto
  moreover have "(1440 * (2::nat) ^ ?e = 1440) = ((2::nat) ^ ?e = 2 ^ 0)" by auto
  ultimately show ?thesis
    using lo hi by (simp only: v top bot e7 e0) simp
qed

lemma spec_formula:
  "scalingFactor * sleepBackoffSeconds (unat n) * 1000 div 100 = unat (sleep_time_of n)"
proof (cases "n = 0")
  case True
  then show ?thesis
    by (simp add: sleepBackoffSeconds_def unat_sleep_time_of)
next
  case False
  then have u: "unat n \<noteq> 0" by (simp add: unat_eq_0)
  have "144 * (2::nat) ^ min 7 (unat n div 3) * 1000
          = (1440 * 2 ^ min 7 (unat n div 3)) * 100"
    by simp
  then have "144 * (2::nat) ^ min 7 (unat n div 3) * 1000 div 100
          = 1440 * 2 ^ min 7 (unat n div 3)"
    by (simp only: nonzero_mult_div_cancel_right)
  with False u show ?thesis
    by (simp only: scalingFactor_def sleepBackoffSeconds_def unat_sleep_time_of if_False)
qed

section \<open>Facts about one qualification call\<close>

lemma float_less_asym: "float_less a b \<Longrightarrow> \<not> float_less b a"
  by (cases a; cases b) simp_all

lemma low_battery_connected [simp]:
  "low_battery (h\<lparr>connected := b\<rparr>) = low_battery h"
  by (simp add: battery_lower_than_def)

lemma qualify_not_low:
  "\<not> low_battery h \<Longrightarrow>
     qualify_battery_and_hibernate st h = Returned (st\<lparr>low_batt_sleep_attempts := 0\<rparr>) []"
  by (simp add: qualify_battery_and_hibernate_def)

lemma qualify_low_requests:
  "low_battery h \<Longrightarrow>
     sleep_requests (trace (qualify_battery_and_hibernate st h))
       = [sleep_time_of (low_batt_sleep_attempts st + 1)]"
  by (simp add: qualify_battery_and_hibernate_def Let_def publish_pmic_stats_event_def)

lemma qualify_low_offline_publishes:
  "low_battery h \<Longrightarrow> \<not> connected h \<Longrightarrow>
     publishes (trace (qualify_battery_and_hibernate st h)) = []"
  by (simp add: qualify_battery_and_hibernate_def Let_def stats_string_def)

lemma qualify_low_online_publishes:
  "low_battery h \<Longrightarrow> connected h \<Longrightarrow>
     publishes (trace (qualify_battery_and_hibernate st h))
       = [([Str ''SLEEP '', Dec (unat (sleep_time_of (low_batt_sleep_attempts st + 1)))],
           stats_string)]"
  by (simp add: qualify_battery_and_hibernate_def Let_def publish_pmic_stats_event_def
      stats_string_def)

lemma qualify_low_terminal:
  "low_battery h \<Longrightarrow> \<not> sleep_returns h \<Longrightarrow>
     is_Suspended (qualify_battery_and_hibernate st h)
     \<and> final (qualify_battery_and_hibernate st h)
         = st\<lparr>low_batt_sleep_attempts := low_batt_sleep_attempts st + 1\<rparr>"
  by (simp add: qualify_battery_and_hibernate_def Let_def)

lemma qualify_final_connected:
  "final (qualify_battery_and_hibernate st (h\<lparr>connected := b\<rparr>))
     = final (qualify_battery_and_hibernate st h)"
  by (simp add: qualify_battery_and_hibernate_def Let_def battery_lower_than_def)

text \<open>
  Were \<open>System.sleep\<close> to return to its caller, line 127 would clear the counter after
  the sleep as well; the statements about the counter below are for the soft power-off
  that ends the run.
\<close>

lemma qualify_low_resumed:
  "low_battery h \<Longrightarrow> sleep_returns h \<Longrightarrow>
     low_batt_sleep_attempts (final (qualify_battery_and_hibernate st h)) = 0"
  by (simp add: qualify_battery_and_hibernate_def Let_def)

section \<open>Facts about runs of qualification calls\<close>

lemma qualify_calls_append:
  "qualify_calls st (xs @ ys) = qualify_calls (qualify_calls st xs) ys"
  by (induction xs arbitrary: st) (auto split: outcome.splits)

lemma qualify_calls_single:
  "low_batt_sleep_attempts (qualify_calls st [h])
     = low_batt_sleep_attempts (final (qualify_battery_and_hibernate st h))"
  by (cases "qualify_battery_and_hibernate st h") (simp_all add: wake_def)

lemma counter_after_call:
  assumes "\<not> sleep_returns h"
  shows "low_batt_sleep_attempts (qualify_calls st (hs @ [h]))
           = (if low_battery h then low_batt_sleep_attempts (qualify_calls st hs) + 1 else 0)"
proof -
  have "low_batt_sleep_attempts (qualify_calls st (hs @ [h]))
          = low_batt_sleep_attempts (final (qualify_battery_and_hibernate (qualify_calls st hs) h))"
    by (simp only: qualify_calls_append qualify_calls_single)
  also have "\<dots> = (if low_battery h then low_batt_sleep_attempts (qualify_calls st hs) + 1 else 0)"
    using assms by (simp add: qualify_not_low qualify_low_terminal)
  finally show ?thesis .
qed

lemma counter_closed_form:
  assumes "\<forall>x \<in> set hs. \<not> sleep_returns x"
  shows "low_batt_sleep_attempts (qualify_calls st hs)
           = (if \<forall>x \<in> set hs. low_battery x
              then low_batt_sleep_attempts st + of_nat (length hs)
              else of_nat (length (takeWhile low_battery (rev hs))))"
  using assms
proof (induction hs rule: rev_induct)
  case Nil
  show ?case by simp
next
  case (snoc h hs)
  then have t: "\<not> sleep_returns h" and ih: "low_batt_sleep_attempts (qualify_calls st hs)
           = (if \<forall>x \<in> set hs. low_battery x
              then low_batt_sleep_attempts st + of_nat (length hs)
              else of_nat (length (takeWhile low_battery (rev hs))))"
    by simp_all
  show ?case
    by (simp only: counter_after_call [OF t] ih) auto
qed

section \<open>The backoff calculator: claims C1, C5 and C9\<close>

text \<open>
  Claim C1, as the code has it. \<open>sleep_backoff\<close> returns 0 for attempt 0 and
  \<open>1000 * 2^min(7, n/3)\<close> for every attempt \<open>n \<ge> 1\<close>: the power of two of the claim,
  times the factor 1000 of line 64. The exponent is \<open>min(7, n/3)\<close>; over the attempts
  1 to 21 it runs 0,0,1,1,1,2,2,2,...,6,6,6,7, and it is 7 for every attempt from 21 on.
\<close>

theorem sleep_backoff_value:
  "unat (sleep_backoff n) = (if n = 0 then 0 else 1000 * 2 ^ min 7 (unat n div 3))
   \<and> unat (backoff_exponent n) = min 7 (unat n div 3)
   \<and> map (\<lambda>a. unat (backoff_exponent (of_nat a))) [1..<22]
        = [0, 0, 1, 1, 1, 2, 2, 2, 3, 3, 3, 4, 4, 4, 5, 5, 5, 6, 6, 6, 7]
   \<and> (21 \<le> unat n \<longrightarrow> unat (backoff_exponent n) = 7)"
  using unat_sleep_backoff [of n] unat_backoff_exponent [of n] exponent_series
    exponent_saturates [of n]
  by blast

theorem sleep_backoff_value_witness:
  "21 \<le> unat (30 :: u32) \<and> unat (backoff_exponent 30) = 7
   \<and> unat (sleep_backoff 30) = 128000"
  using sleep_backoff_value [of 30] by simp

text \<open>
  The claim as worded, \<open>sleep_backoff(n) = 2^min(7, n/3)\<close>, fails already at the first
  attempt: the code returns 1000 there, not 1.
\<close>

theorem sleep_backoff_not_power_of_two:
  "unat (sleep_backoff 1) = 1000 \<and> unat (sleep_backoff 1) \<noteq> 2 ^ min 7 (1 div 3)"
  by (simp add: unat_sleep_backoff)

text \<open>
  Claim C5, as the code has it. \<open>sleep_backoff\<close> is monotonically non-decreasing in its
  argument, and its result is bounded above by 128000 (the bound 128 of the claim, times
  the factor 1000 of line 64) for every input.
\<close>

theorem sleep_backoff_mono_bounded:
  "(m \<le> n \<longrightarrow> sleep_backoff m \<le> sleep_backoff n) \<and> unat (sleep_backoff n) \<le> 128000"
  using sleep_backoff_mono [of m n] unat_sleep_backoff_le [of n] by blast

theorem sleep_backoff_mono_bounded_witness:
  "(2 :: u32) \<le> 21 \<and> sleep_backoff 2 \<le> sleep_backoff 21
   \<and> unat (sleep_backoff 21) \<le> 128000 \<and> unat (sleep_backoff 21) = 128000"
  using sleep_backoff_mono_bounded [of 2 21] by (simp add: unat_sleep_backoff)

text \<open>The bound 128 of the claim is exceeded at the first attempt.\<close>

theorem sleep_backoff_exceeds_128:
  "\<not> unat (sleep_backoff 1) \<le> 128"
  by (simp add: unat_sleep_backoff)

text \<open>
  Claim C9. For every 32-bit attempt number \<open>n\<close> the product \<open>144 * sleep_backoff(n)\<close>
  of line 115 stays below \<open>2^32\<close> (it is at most \<open>144 * 128000 = 18432000\<close>), so the
  unsigned multiplication does not wrap; the product is divisible by 100, so the division
  loses nothing; and for \<open>n \<ge> 1\<close> the quotient is \<open>1440 * 2^min(7, n/3)\<close>.
\<close>

theorem scaled_product_exact:
  "144 * unat (sleep_backoff n) < 2 ^ 32
   \<and> 144 * unat (sleep_backoff n) \<le> 144 * 128000
   \<and> 144 * 128000 = (18432000 :: nat)
   \<and> unat (144 * sleep_backoff n) = 144 * unat (sleep_backoff n)
   \<and> 100 dvd unat (144 * sleep_backoff n)
   \<and> unat (144 * sleep_backoff n div 100) * 100 = 144 * unat (sleep_backoff n)
   \<and> (n \<noteq> 0 \<longrightarrow> unat (144 * sleep_backoff n div 100) = 1440 * 2 ^ min 7 (unat n div 3))"
proof -
  have b: "unat (sleep_backoff n) \<le> 128000" by (rule unat_sleep_backoff_le)
  have p: "unat (144 * sleep_backoff n) = 144 * unat (sleep_backoff n)" by (rule unat_product)
  have d: "100 dvd unat (144 * sleep_backoff n)" by (rule product_divisible)
  have q: "unat (144 * sleep_backoff n div 100) = unat (144 * sleep_backoff n) div 100"
    by (simp add: unat_div)
  have e: "unat (144 * sleep_backoff n div 100) * 100 = 144 * unat (sleep_backoff n)"
    using d by (simp only: q dvd_div_mult_self p)
  have f: "n \<noteq> 0 \<longrightarrow> unat (144 * sleep_backoff n div 100) = 1440 * 2 ^ min 7 (unat n div 3)"
    using unat_sleep_time_of [of n] by (simp add: sleep_time_of_def)
  from b have "144 * unat (sleep_backoff n) < 2 ^ 32" by simp
  moreover from b have "144 * unat (sleep_backoff n) \<le> 144 * 128000" by simp
  moreover have "144 * 128000 = (18432000 :: nat)" by simp
  ultimately show ?thesis using p d e f by blast
qed

theorem scaled_product_exact_witness:
  "(1 :: u32) \<noteq> 0
   \<and> unat (144 * sleep_backoff 1 div 100) = 1440 * 2 ^ min 7 (unat (1 :: u32) div 3)
   \<and> unat (144 * sleep_backoff 1 div 100) = 1440"
  using scaled_product_exact [of 1] by simp

section \<open>The qualification routine: claims C2, C3, C4, C6, C7 and C10\<close>

text \<open>
  Claim C2. Take any run of qualification calls in which the soft power-off ends the run
  it is called in. A call that reads a state of charge below 20.0 ends in the sleep and
  leaves the retained counter one higher than it found it (the \<open>uint32_t\<close> increment of
  line 115), not cleared; a call that does not read below 20.0 leaves it at 0; a low
  reading straight after such a call leaves it at 1. Over a whole run, the counter is
  the number of low readings since the last reading that was not low (added to the
  starting value when every reading was low).
\<close>

theorem attempts_counter_over_calls:
  assumes "\<not> sleep_returns h" and "\<not> sleep_returns h'"
  shows "(low_battery h \<longrightarrow>
            is_Suspended (qualify_battery_and_hibernate (qualify_calls st hs) h)
          \<and> low_batt_sleep_attempts (final (qualify_battery_and_hibernate (qualify_calls st hs) h))
              = low_batt_sleep_attempts (qualify_calls st hs) + 1
          \<and> low_batt_sleep_attempts (qualify_calls st (hs @ [h]))
              = low_batt_sleep_attempts (qualify_calls st hs) + 1)
       \<and> (\<not> low_battery h \<longrightarrow> low_batt_sleep_attempts (qualify_calls st (hs @ [h])) = 0)
       \<and> (\<not> low_battery h \<longrightarrow> low_battery h' \<longrightarrow>
            low_batt_sleep_attempts (qualify_calls st (hs @ [h, h'])) = 1)
       \<and> ((\<forall>x \<in> set hs. \<not> sleep_returns x) \<longrightarrow>
            low_batt_sleep_attempts (qualify_calls st hs)
              = (if \<forall>x \<in> set hs. low_battery x
                 then low_batt_sleep_attempts st + of_nat (length hs)
                 else of_nat (length (takeWhile low_battery (rev hs)))))"
proof -
  have two: "hs @ [h, h'] = (hs @ [h]) @ [h']" by simp
  have a: "low_battery h \<longrightarrow>
            is_Suspended (qualify_battery_and_hibernate (qualify_calls st hs) h)
          \<and> low_batt_sleep_attempts (final (qualify_battery_and_hibernate (qualify_calls st hs) h))
              = low_batt_sleep_attempts (qualify_calls st hs) + 1"
    using assms(1) by (simp add: qualify_low_terminal)
  have b: "low_battery h \<longrightarrow> low_batt_sleep_attempts (qualify_calls st (hs @ [h]))
              = low_batt_sleep_attempts (qualify_calls st hs) + 1"
    by (simp add: counter_after_call [OF assms(1)])
  have c: "\<not> low_battery h \<longrightarrow> low_batt_sleep_attempts (qualify_calls st (hs @ [h])) = 0"
    by (simp add: counter_after_call [OF assms(1)])
  have d: "\<not> low_battery h \<longrightarrow> low_battery h' \<longrightarrow>
            low_batt_sleep_attempts (qualify_calls st (hs @ [h, h'])) = 1"
    by (simp only: two counter_after_call [OF assms(2)] counter_after_call [OF assms(1)]) simp
  have e: "(\<forall>x \<in> set hs. \<not> sleep_returns x) \<longrightarrow>
            low_batt_sleep_attempts (qualify_calls st hs)
              = (if \<forall>x \<in> set hs. low_battery x
                 then low_batt_sleep_attempts st + of_nat (length hs)
                 else of_nat (length (takeWhile low_battery (rev hs))))"
    using counter_closed_form [of hs st] by blast
  from a b c d e show ?thesis by blast
qed

theorem attempts_counter_over_calls_witness:
  "\<not> sleep_returns \<lparr>soc = Finite 25, connected = False, sleep_returns = False\<rparr>
   \<and> \<not> sleep_returns \<lparr>soc = Finite 15, connected = False, sleep_returns = False\<rparr>
   \<and> \<not> low_battery \<lparr>soc = Finite 25, connected = False, sleep_returns = False\<rparr>
   \<and> low_battery \<lparr>soc = Finite 15, connected = False, sleep_returns = False\<rparr>
   \<and> low_batt_sleep_attempts (qualify_calls
         \<lparr>last_battery_capacity = Finite 0, low_batt_sleep_attempts = 0, lastBlink = 0\<rparr>
         (replicate 5 \<lparr>soc = Finite 15, connected = False, sleep_returns = False\<rparr>)) = 5
   \<and> low_batt_sleep_attempts (qualify_calls
         \<lparr>last_battery_capacity = Finite 0, low_batt_sleep_attempts = 0, lastBlink = 0\<rparr>
         (replicate 5 \<lparr>soc = Finite 15, connected = False, sleep_returns = False\<rparr>
          @ [\<lparr>soc = Finite 15, connected = False, sleep_returns = False\<rparr>])) = 6
   \<and> low_batt_sleep_attempts (qualify_calls
         \<lparr>last_battery_capacity = Finite 0, low_batt_sleep_attempts = 0, lastBlink = 0\<rparr>
         (replicate 5 \<lparr>soc = Finite 15, connected = False, sleep_returns = False\<rparr>
          @ [\<lparr>soc = Finite 25, connected = False, sleep_returns = False\<rparr>])) = 0
   \<and> low_batt_sleep_attempts (qualify_calls
         \<lparr>last_battery_capacity = Finite 0, low_batt_sleep_attempts = 0, lastBlink = 0\<rparr>
         (replicate 5 \<lparr>soc = Finite 15, connected = False, sleep_returns = False\<rparr>
          @ [\<lparr>soc = Finite 25, connected = False, sleep_returns = False\<rparr>,
             \<lparr>soc = Finite 15, connected = False, sleep_returns = False\<rparr>])) = 1"
  using attempts_counter_over_calls
      [of "\<lparr>soc = Finite 25, connected = False, sleep_returns = False\<rparr>"
          "\<lparr>soc = Finite 15, connected = False, sleep_returns = False\<rparr>"
          "\<lparr>last_battery_capacity = Finite 0, low_batt_sleep_attempts = 0, lastBlink = 0\<rparr>"
          "replicate 5 \<lparr>soc = Finite 15, connected = False, sleep_returns = False\<rparr>"]
    attempts_counter_over_calls
      [of "\<lparr>soc = Finite 15, connected = False, sleep_returns = False\<rparr>"
          "\<lparr>soc = Finite 15, connected = False, sleep_returns = False\<rparr>"
          "\<lparr>last_battery_capacity = Finite 0, low_batt_sleep_attempts = 0, lastBlink = 0\<rparr>"
          "replicate 5 \<lparr>soc = Finite 15, connected = False, sleep_returns = False\<rparr>"]
  by (simp add: battery_lower_than_def LOW_BATT_CAPACITY_def)

text \<open>
  Claim C3. For a call that goes to sleep, the duration handed to \<open>System.sleep\<close> is the
  specification's formula \<open>scalingFactor * sleepBackoffSeconds(n) * 1000 / 100\<close> in
  integer arithmetic, \<open>n\<close> being the counter after the increment; for the first attempt
  (counter 0 before the call) it is 1440.
\<close>

theorem sleep_duration_formula:
  assumes "low_battery h"
  shows "map unat (sleep_requests (trace (qualify_battery_and_hibernate st h)))
           = [scalingFactor * sleepBackoffSeconds (unat (low_batt_sleep_attempts st + 1))
                * 1000 div 100]
       \<and> (low_batt_sleep_attempts st = 0 \<longrightarrow>
            sleep_requests (trace (qualify_battery_and_hibernate st h)) = [1440])"
proof -
  have one: "sleep_time_of 1 = 1440"
    by (simp add: sleep_time_of_def sleep_backoff_def backoff_exponent_def)
  show ?thesis
    using one by (simp add: qualify_low_requests [OF assms] spec_formula)
qed

theorem sleep_duration_formula_witness:
  "low_battery \<lparr>soc = Finite 15, connected = True, sleep_returns = False\<rparr>
   \<and> sleep_requests (trace (qualify_battery_and_hibernate
        \<lparr>last_battery_capacity = Finite 0, low_batt_sleep_attempts = 0, lastBlink = 0\<rparr>
        \<lparr>soc = Finite 15, connected = True, sleep_returns = False\<rparr>)) = [1440]
   \<and> map unat (sleep_requests (trace (qualify_battery_and_hibernate
        \<lparr>last_battery_capacity = Finite 0, low_batt_sleep_attempts = 0, lastBlink = 0\<rparr>
        \<lparr>soc = Finite 15, connected = True, sleep_returns = False\<rparr>)))
       = [scalingFactor * sleepBackoffSeconds 1 * 1000 div 100]"
  using sleep_duration_formula
      [of "\<lparr>soc = Finite 15, connected = True, sleep_returns = False\<rparr>"
          "\<lparr>last_battery_capacity = Finite 0, low_batt_sleep_attempts = 0, lastBlink = 0\<rparr>"]
  by (simp add: battery_lower_than_def LOW_BATT_CAPACITY_def scalingFactor_def
      sleepBackoffSeconds_def)

text \<open>
  Claim C4. A call that reads a state of charge of exactly 20.0 returns with the counter
  at 0 and has done nothing else: no sleep, no publish. The test is the strict \<open><\<close> of
  line 73: a finite reading \<open>r\<close> counts as low exactly when \<open>r < 20\<close>, and a call asks
  for a sleep exactly when its reading is low.
\<close>

theorem threshold_boundary:
  "qualify_battery_and_hibernate st (h\<lparr>soc := Finite 20\<rparr>)
     = Returned (st\<lparr>low_batt_sleep_attempts := 0\<rparr>) []
   \<and> sleep_requests (trace (qualify_battery_and_hibernate st (h\<lparr>soc := Finite 20\<rparr>))) = []
   \<and> publishes (trace (qualify_battery_and_hibernate st (h\<lparr>soc := Finite 20\<rparr>))) = []
   \<and> low_batt_sleep_attempts (final (qualify_battery_and_hibernate st (h\<lparr>soc := Finite 20\<rparr>))) = 0
   \<and> low_battery (h\<lparr>soc := Finite r\<rparr>) = (r < 20)
   \<and> (sleep_requests (trace (qualify_battery_and_hibernate st h)) \<noteq> []) = low_battery h"
proof -
  have n: "\<not> low_battery (h\<lparr>soc := Finite 20\<rparr>)"
    by (simp add: battery_lower_than_def LOW_BATT_CAPACITY_def)
  have s: "low_battery (h\<lparr>soc := Finite r\<rparr>) = (r < 20)"
    by (simp add: battery_lower_than_def LOW_BATT_CAPACITY_def)
  have t: "(sleep_requests (trace (qualify_battery_and_hibernate st h)) \<noteq> []) = low_battery h"
    by (cases "low_battery h") (simp_all add: qualify_low_requests qualify_not_low)
  show ?thesis
    by (simp only: qualify_not_low [OF n] s t) simp
qed

text \<open>
  Claim C6. A call that reads a low battery while the cloud is not connected publishes
  nothing and still asks for the sleep, with the same duration as the same call would
  when connected; the connected call differs only in that it publishes (same final
  globals, same way of ending).
\<close>

theorem offline_sleep_unchanged:
  assumes "low_battery h" and "\<not> connected h"
  shows "publishes (trace (qualify_battery_and_hibernate st h)) = []
       \<and> sleep_requests (trace (qualify_battery_and_hibernate st h))
           = [sleep_time_of (low_batt_sleep_attempts st + 1)]
       \<and> sleep_requests (trace (qualify_battery_and_hibernate st (h\<lparr>connected := True\<rparr>)))
           = sleep_requests (trace (qualify_battery_and_hibernate st h))
       \<and> final (qualify_battery_and_hibernate st (h\<lparr>connected := True\<rparr>))
           = final (qualify_battery_and_hibernate st h)
       \<and> is_Suspended (qualify_battery_and_hibernate st (h\<lparr>connected := True\<rparr>))
           = is_Suspended (qualify_battery_and_hibernate st h)
       \<and> publishes (trace (qualify_battery_and_hibernate st (h\<lparr>connected := True\<rparr>))) \<noteq> []"
proof -
  have l: "low_battery (h\<lparr>connected := True\<rparr>)" using assms(1) by simp
  have d: "is_Suspended (qualify_battery_and_hibernate st (h\<lparr>connected := True\<rparr>))
           = is_Suspended (qualify_battery_and_hibernate st h)"
    by (simp add: qualify_battery_and_hibernate_def Let_def)
  show ?thesis
    using d
    by (simp add: qualify_low_offline_publishes [OF assms] qualify_low_requests [OF assms(1)]
        qualify_low_requests [OF l] qualify_final_connected qualify_low_online_publishes [OF l])
qed

theorem offline_sleep_unchanged_witness:
  "low_battery \<lparr>soc = Finite 15, connected = False, sleep_returns = False\<rparr>
   \<and> \<not> connected \<lparr>soc = Finite 15, connected = False, sleep_returns = False\<rparr>
   \<and> publishes (trace (qualify_battery_and_hibernate
        \<lparr>last_battery_capacity = Finite 0, low_batt_sleep_attempts = 2, lastBlink = 0\<rparr>
        \<lparr>soc = Finite 15, connected = False, sleep_returns = False\<rparr>)) = []
   \<and> sleep_requests (trace (qualify_battery_and_hibernate
        \<lparr>last_battery_capacity = Finite 0, low_batt_sleep_attempts = 2, lastBlink = 0\<rparr>
        \<lparr>soc = Finite 15, connected = False, sleep_returns = False\<rparr>)) = [sleep_time_of 3]
   \<and> sleep_requests (trace (qualify_battery_and_hibernate
        \<lparr>last_battery_capacity = Finite 0, low_batt_sleep_attempts = 2, lastBlink = 0\<rparr>
        \<lparr>soc = Finite 15, connected = True, sleep_returns = False\<rparr>)) = [sleep_time_of 3]"
  using offline_sleep_unchanged
      [of "\<lparr>soc = Finite 15, connected = False, sleep_returns = False\<rparr>"
          "\<lparr>last_battery_capacity = Finite 0, low_batt_sleep_attempts = 2, lastBlink = 0\<rparr>"]
  by (simp add: battery_lower_than_def LOW_BATT_CAPACITY_def)

text \<open>
  Claim C7. Two calls in a row with the same reading above 20.0: the counter is 0 after
  the first and 0 after the second, and the second call does exactly what the first did.
\<close>

theorem above_threshold_idempotent:
  assumes "float_less LOW_BATT_CAPACITY (soc h)"
  shows "low_batt_sleep_attempts (final (qualify_battery_and_hibernate st h)) = 0
       \<and> low_batt_sleep_attempts
           (final (qualify_battery_and_hibernate (final (qualify_battery_and_hibernate st h)) h)) = 0
       \<and> qualify_battery_and_hibernate (final (qualify_battery_and_hibernate st h)) h
           = qualify_battery_and_hibernate st h
       \<and> qualify_battery_and_hibernate st h = Returned (st\<lparr>low_batt_sleep_attempts := 0\<rparr>) []"
proof -
  have n: "\<not> low_battery h"
    using float_less_asym [OF assms] by (simp add: battery_lower_than_def)
  show ?thesis by (simp add: qualify_not_low [OF n])
qed

theorem above_threshold_idempotent_witness:
  "float_less LOW_BATT_CAPACITY (soc \<lparr>soc = Finite 25, connected = True, sleep_returns = False\<rparr>)
   \<and> low_batt_sleep_attempts (final (qualify_battery_and_hibernate
        \<lparr>last_battery_capacity = Finite 0, low_batt_sleep_attempts = 5, lastBlink = 0\<rparr>
        \<lparr>soc = Finite 25, connected = True, sleep_returns = False\<rparr>)) = 0
   \<and> low_batt_sleep_attempts (final (qualify_battery_and_hibernate
        (final (qualify_battery_and_hibernate
           \<lparr>last_battery_capacity = Finite 0, low_batt_sleep_attempts = 5, lastBlink = 0\<rparr>
           \<lparr>soc = Finite 25, connected = True, sleep_returns = False\<rparr>))
        \<lparr>soc = Finite 25, connected = True, sleep_returns = False\<rparr>)) = 0"
  using above_threshold_idempotent
      [of "\<lparr>soc = Finite 25, connected = True, sleep_returns = False\<rparr>"
          "\<lparr>last_battery_capacity = Finite 0, low_batt_sleep_attempts = 5, lastBlink = 0\<rparr>"]
  by (simp add: LOW_BATT_CAPACITY_def qualify_battery_and_hibernate_def battery_lower_than_def)

text \<open>
  Claim C10, as the code has it. Whenever a call asks for a sleep and the counter it
  found was below \<open>2^32 - 1\<close> (so that the incremented counter is at least 1), the
  duration lies between 1440 and 184320 inclusive; it is 184320 exactly from attempt 21
  on, and 1440 exactly for attempts 1 and 2.
\<close>

theorem sleep_duration_range:
  assumes "d \<in> set (sleep_requests (trace (qualify_battery_and_hibernate st h)))"
    and "unat (low_batt_sleep_attempts st) < 4294967295"
  shows "low_battery h
       \<and> d = sleep_time_of (low_batt_sleep_attempts st + 1)
       \<and> 1 \<le> unat (low_batt_sleep_attempts st + 1)
       \<and> 1440 \<le> unat d \<and> unat d \<le> 184320
       \<and> (unat d = 184320) = (21 \<le> unat (low_batt_sleep_attempts st + 1))
       \<and> (unat d = 1440) = (unat (low_batt_sleep_attempts st + 1) < 3)"
proof -
  have l: "low_battery h"
  proof (rule ccontr)
    assume "\<not> low_battery h"
    then show False using assms(1) by (simp add: qualify_not_low)
  qed
  have d: "d = sleep_time_of (low_batt_sleep_attempts st + 1)"
    using assms(1) by (simp add: qualify_low_requests [OF l])
  have u: "unat (low_batt_sleep_attempts st + 1) = unat (low_batt_sleep_attempts st) + 1"
    using assms(2) by (rule unat_incremented)
  then have "unat (low_batt_sleep_attempts st + 1) \<noteq> 0" by simp
  then have nz: "low_batt_sleep_attempts st + 1 \<noteq> 0" by (simp only: unat_eq_0 not_False_eq_True)
  show ?thesis
    using l u sleep_time_range [OF nz] by (simp add: d)
qed

theorem sleep_duration_range_witness:
  "1440 \<in> set (sleep_requests (trace (qualify_battery_and_hibernate
        \<lparr>last_battery_capacity = Finite 0, low_batt_sleep_attempts = 0, lastBlink = 0\<rparr>
        \<lparr>soc = Finite 15, connected = False, sleep_returns = False\<rparr>)))
   \<and> unat (low_batt_sleep_attempts
        \<lparr>last_battery_capacity = Finite 0, low_batt_sleep_attempts = 0, lastBlink = 0\<rparr>)
       < 4294967295
   \<and> 1440 \<le> unat (1440 :: u32) \<and> unat (1440 :: u32) \<le> 184320"
  using sleep_duration_range
      [of 1440 "\<lparr>last_battery_capacity = Finite 0, low_batt_sleep_attempts = 0, lastBlink = 0\<rparr>"
          "\<lparr>soc = Finite 15, connected = False, sleep_returns = False\<rparr>"]
  by (simp add: qualify_battery_and_hibernate_def battery_lower_than_def LOW_BATT_CAPACITY_def
      stats_string_def sleep_time_of_def sleep_backoff_def backoff_exponent_def)

text \<open>
  Without the bound on the counter the range fails: from \<open>2^32 - 1\<close> the increment of
  line 115 wraps to 0, \<open>sleep_backoff(0)\<close> is 0 and the call asks for a sleep of 0.
\<close>

theorem sleep_duration_zero_at_wrap:
  "map unat (sleep_requests (trace (qualify_battery_and_hibernate
      \<lparr>last_battery_capacity = Finite 0, low_batt_sleep_attempts = 4294967295, lastBlink = 0\<rparr>
      \<lparr>soc = Finite 15, connected = False, sleep_returns = False\<rparr>))) = [0]
   \<and> low_batt_sleep_attempts (final (qualify_battery_and_hibernate
      \<lparr>last_battery_capacity = Finite 0, low_batt_sleep_attempts = 4294967295, lastBlink = 0\<rparr>
      \<lparr>soc = Finite 15, connected = False, sleep_returns = False\<rparr>)) = 0
   \<and> \<not> 1440 \<le> unat (hd (sleep_requests (trace (qualify_battery_and_hibernate
      \<lparr>last_battery_capacity = Finite 0, low_batt_sleep_attempts = 4294967295, lastBlink = 0\<rparr>
      \<lparr>soc = Finite 15, connected = False, sleep_returns = False\<rparr>))))"
  by (simp add: qualify_battery_and_hibernate_def battery_lower_than_def LOW_BATT_CAPACITY_def
      stats_string_def sleep_time_of_def sleep_backoff_def)

section \<open>The serial console: claim C8\<close>

text \<open>
  Claim C8. For every input character other than \<open>q\<close>, \<open>Q\<close>, \<open>b\<close>, \<open>v\<close> and \<open>h\<close>,
  \<open>processSerial\<close> prints the bad-command message and returns with every global as it
  was, \<open>last_battery_capacity\<close> and \<open>low_batt_sleep_attempts\<close> among them; nothing else
  is done (the rest of the receive buffer is dropped, line 185).
\<close>

theorem bad_command_no_state_change:
  assumes "c \<notin> {CHR ''q'', CHR ''Q'', CHR ''b'', CHR ''v'', CHR ''h''}"
  shows "processSerial st h (c # rest)
           = (Returned st [Serial_println [Str ''Bad command! Press [h] for help menu.'']], [])
       \<and> final (fst (processSerial st h (c # rest))) = st
       \<and> last_battery_capacity (final (fst (processSerial st h (c # rest))))
           = last_battery_capacity st
       \<and> low_batt_sleep_attempts (final (fst (processSerial st h (c # rest))))
           = low_batt_sleep_attempts st"
  using assms by (simp add: processSerial_def)

theorem bad_command_no_state_change_witness:
  "CHR ''x'' \<notin> {CHR ''q'', CHR ''Q'', CHR ''b'', CHR ''v'', CHR ''h''}
   \<and> processSerial
        \<lparr>last_battery_capacity = Finite 0, low_batt_sleep_attempts = 4, lastBlink = 9\<rparr>
        \<lparr>soc = Finite 15, connected = True, sleep_returns = False\<rparr> ''xb''
      = (Returned \<lparr>last_battery_capacity = Finite 0, low_batt_sleep_attempts = 4, lastBlink = 9\<rparr>
           [Serial_println [Str ''Bad command! Press [h] for help menu.'']], [])"
  using bad_command_no_state_change
      [of "CHR ''x''"
          "\<lparr>last_battery_capacity = Finite 0, low_batt_sleep_attempts = 4, lastBlink = 9\<rparr>"
          "\<lparr>soc = Finite 15, connected = True, sleep_returns = False\<rparr>" "''b''"]
  by simp

end
